theory Spec2Isabelle
  imports Main "HOL-Library.Word"
begin

unbundle bit_operations_syntax

section \<open>Data model of the GBA core (src/gba/gba.c)\<close>

text \<open>
  Pointers are addresses, \<open>0\<close> being the null pointer. Values of type \<open>size_t\<close> are
  natural numbers; \<open>int32_t\<close> cycle counts are integers (the code only assigns and
  compares them, it never does arithmetic on them); registers are words of their width.
  The functions are modelled as built without \<open>_3DS\<close>; calls of the logger change no
  state and are left out.
\<close>

type_synonym ptr = nat

text \<open>
  The file-like source (\<open>struct VFile\<close>, util/vfs.h): its bytes, its read position and
  the buffer its \<open>map\<close> hands out (null when mapping fails).
\<close>

record VFile =
  vcontents :: "8 word list"
  vposition :: nat
  vmapping :: ptr

datatype ExecutionMode = MODE_ARM | MODE_THUMB

datatype PrivilegeMode = MODE_IRQ | MODE_SUPERVISOR | MODE_SYSTEM

text \<open>The fields of \<open>struct ARMCore\<close> that gba.c reads or writes.\<close>

record ARMCore =
  gprs :: "nat \<Rightarrow> 32 word"
  cpsr_i :: bool
  cycles :: int
  nextEvent :: int
  halted :: int
  prefetch :: "nat \<Rightarrow> 32 word"
  executionMode :: ExecutionMode
  numComponents :: nat
  components :: "nat \<Rightarrow> ptr"

text \<open>
  Calls into collaborators whose code is outside gba.c and whose effect lies outside the
  state below are recorded, in order, in \<open>calls\<close>.
\<close>

datatype ExtCall =
    Call_ARMRaiseIRQ
  | Call_mappedMemoryFree ptr nat
  | Call_unmap ptr nat
  | Call_close
  | Call_GBASavedataDeinit
  | Call_savedata_close
  | Call_GBASavedataUnmask
  | Call_GBAHardwareInit
  | Call_GBAVFameDetect
  | Call_mTimingClear
  | Call_GBAMemoryReset
  | Call_GBAVideoReset
  | Call_GBAAudioReset
  | Call_GBATimerInit
  | Call_GBASIOReset

text \<open>
  \<open>struct GBA\<close> with the members of \<open>gba->memory\<close> inlined: \<open>rom\<close>, \<open>romSize\<close>,
  \<open>romMask\<close>, \<open>mirroring\<close>, \<open>io\<close> and \<open>savedata_realVf\<close> (whether
  \<open>memory.savedata.realVf\<close> is non-null). \<open>busMemory\<close> is the byte-addressed memory
  that the patch primitives write. \<open>rr\<close> holds what the replay recorder, when attached,
  answers to \<open>isPlaying\<close> and \<open>isRecording\<close>.
\<close>

record GBA =
  cpu :: ARMCore
  io :: "nat \<Rightarrow> 16 word"
  rom :: ptr
  romSize :: nat
  romMask :: "32 word"
  mirroring :: bool
  savedata_realVf :: bool
  pristineRom :: ptr
  pristineRomSize :: nat
  yankedRomSize :: nat
  romVf :: "VFile option"
  romCrc32 :: "32 word"
  idleLoop :: "32 word"
  springIRQ :: "16 word"
  cpuBlocked :: bool
  bus :: "32 word"
  rr :: "(bool \<times> bool) option"
  lastJump :: "32 word"
  haltPending :: bool
  idleDetectionStep :: int
  idleDetectionFailures :: int
  debug :: bool
  debugString :: "8 word list"
  busMemory :: "32 word \<Rightarrow> 8 word"
  calls :: "ExtCall list"

text \<open>
  The collaborators whose effect reaches the state above are taken as parameters: the CPU
  core's interrupt entry and privilege switch (arm/arm.c), the I/O register reset
  (gba/io.c), the checksum (util/crc32.c), the anonymous allocator (util/memory.c), and
  the timing and serial-I/O ticks, which run peripheral callbacks over the whole machine.
\<close>

record Ext =
  armRaiseIRQ :: "ARMCore \<Rightarrow> ARMCore"
  armSetPrivilegeMode :: "PrivilegeMode \<Rightarrow> ARMCore \<Rightarrow> ARMCore"
  ioInit :: "(nat \<Rightarrow> 16 word) \<Rightarrow> (nat \<Rightarrow> 16 word)"
  doCrc32 :: "ptr \<Rightarrow> nat \<Rightarrow> 32 word"
  anonymousMemoryMap :: "nat \<Rightarrow> ptr"
  mTimingTick :: "int \<Rightarrow> GBA \<Rightarrow> GBA"
  GBASIOProcessEvents :: "int \<Rightarrow> GBA \<Rightarrow> int \<times> GBA"

subsection \<open>Constants of the headers\<close>

text \<open>
  The register offsets (gba/io.h), the interrupt number (gba/gba.h), the region sizes
  (gba/memory.h) and the stack bases that gba.c names.
\<close>

definition REG_IE :: nat where "REG_IE = 0x200"
definition REG_IF :: nat where "REG_IF = 0x202"
definition REG_IME :: nat where "REG_IME = 0x208"

definition IRQ_GAMEPAK :: nat where "IRQ_GAMEPAK = 0xD"

definition SIZE_CART0 :: nat where "SIZE_CART0 = 0x02000000"
definition SIZE_WORKING_RAM :: nat where "SIZE_WORKING_RAM = 0x40000"

definition IDLE_LOOP_NONE :: "32 word" where "IDLE_LOOP_NONE = 0xFFFFFFFF"

definition INT_MAX :: int where "INT_MAX = 2147483647"

definition ARM_SP :: nat where "ARM_SP = 13"
definition SP_BASE_SYSTEM :: "32 word" where "SP_BASE_SYSTEM = 0x03007F00"
definition SP_BASE_IRQ :: "32 word" where "SP_BASE_IRQ = 0x03007FA0"
definition SP_BASE_SUPERVISOR :: "32 word" where "SP_BASE_SUPERVISOR = 0x03007FE0"

text \<open>\<open>gba->memory.io[reg >> 1]\<close>\<close>

definition ioreg :: "GBA \<Rightarrow> nat \<Rightarrow> 16 word" where
  "ioreg gba reg = io gba (drop_bit 1 reg)"

section \<open>Interrupt controller\<close>

text \<open>\<open>ARMRaiseIRQ(gba->cpu)\<close>: the core's interrupt entry runs and the call is recorded.\<close>

definition ARMRaiseIRQ :: "Ext \<Rightarrow> GBA \<Rightarrow> GBA" where
  "ARMRaiseIRQ X gba =
     gba\<lparr>cpu := armRaiseIRQ X (cpu gba), calls := calls gba @ [Call_ARMRaiseIRQ]\<rparr>"

text \<open>How many times the interrupt has been delivered to the CPU core.\<close>

definition deliveries :: "GBA \<Rightarrow> nat" where
  "deliveries gba = length (filter (\<lambda>c. c = Call_ARMRaiseIRQ) (calls gba))"

text \<open>
  \<open>GBAWriteIE\<close>. The keypad branch only logs. The function tests the value being
  written; it does not store it.
\<close>

definition GBAWriteIE :: "Ext \<Rightarrow> GBA \<Rightarrow> 16 word \<Rightarrow> GBA" where
  "GBAWriteIE X gba v =
     (if ioreg gba REG_IME \<noteq> 0 \<and> v AND ioreg gba REG_IF \<noteq> 0
      then ARMRaiseIRQ X gba else gba)"

definition GBAWriteIME :: "Ext \<Rightarrow> GBA \<Rightarrow> 16 word \<Rightarrow> GBA" where
  "GBAWriteIME X gba v =
     (if v \<noteq> 0 \<and> ioreg gba REG_IE AND ioreg gba REG_IF \<noteq> 0
      then ARMRaiseIRQ X gba else gba)"

text \<open>\<open>1 << irq\<close>, as it lands in a 16-bit register.\<close>

definition irqBit :: "nat \<Rightarrow> 16 word" where
  "irqBit irq = push_bit irq 1"

definition GBARaiseIRQ :: "Ext \<Rightarrow> GBA \<Rightarrow> nat \<Rightarrow> GBA" where
  "GBARaiseIRQ X gba irq =
     (let g1 = gba\<lparr>io := (io gba)(drop_bit 1 REG_IF := ioreg gba REG_IF OR irqBit irq)\<rparr>
      in if ioreg g1 REG_IE AND irqBit irq \<noteq> 0
         then (let g2 = g1\<lparr>cpu := (cpu g1)\<lparr>halted := 0\<rparr>\<rparr>
               in if ioreg g2 REG_IME \<noteq> 0 then ARMRaiseIRQ X g2 else g2)
         else g1)"

definition GBATestIRQ :: "GBA \<Rightarrow> GBA" where
  "GBATestIRQ gba =
     (if ioreg gba REG_IME \<noteq> 0 \<and> ioreg gba REG_IE AND ioreg gba REG_IF \<noteq> 0
      then gba\<lparr>springIRQ := ioreg gba REG_IE AND ioreg gba REG_IF,
               cpu := (cpu gba)\<lparr>nextEvent := cycles (cpu gba)\<rparr>\<rparr>
      else gba)"

definition GBAHalt :: "GBA \<Rightarrow> GBA" where
  "GBAHalt gba = gba\<lparr>cpu := (cpu gba)\<lparr>nextEvent := cycles (cpu gba), halted := 1\<rparr>\<rparr>"

section \<open>ROM lifecycle\<close>

text \<open>
  Modelled from the spec: \<open>toPow2\<close> (util/math.h, outside gba.c) rounds its 32-bit
  argument up to the next power of two. The doubling starts at 1 and stops at the first
  power that is at least the argument, so the answer for 0 is 1; the result is taken in
  32 bits.
\<close>

fun pow2AtLeast :: "nat \<Rightarrow> nat \<Rightarrow> nat \<Rightarrow> nat" where
  "pow2AtLeast 0 p n = p"
| "pow2AtLeast (Suc fuel) p n = (if n \<le> p then p else pow2AtLeast fuel (2 * p) n)"

definition toPow2 :: "32 word \<Rightarrow> 32 word" where
  "toPow2 bits = word_of_nat (pow2AtLeast 32 1 (unat bits))"

text \<open>The \<open>size_t\<close> to \<open>uint32_t\<close> conversion at the call \<open>toPow2(romSize)\<close>.\<close>

definition romMaskOf :: "nat \<Rightarrow> 32 word" where
  "romMaskOf n = toPow2 (word_of_nat n) - 1"

text \<open>
  Modelled from the spec: the file-like source (util/vfs.h, outside gba.c).
  \<open>size\<close> is the number of bytes, \<open>seek\<close> with \<open>SEEK_SET\<close> moves the position and
  answers it, or \<open>-1\<close> past the end; \<open>read\<close> hands out the bytes from the position on,
  at most as many as asked for, and advances; \<open>map\<close> answers the mapped buffer.
\<close>

definition vf_size :: "VFile \<Rightarrow> nat" where
  "vf_size vf = length (vcontents vf)"

definition vf_seek :: "VFile \<Rightarrow> nat \<Rightarrow> int \<times> VFile" where
  "vf_seek vf off =
     (if off > length (vcontents vf) then (-1, vf) else (int off, vf\<lparr>vposition := off\<rparr>))"

definition vf_read :: "VFile \<Rightarrow> nat \<Rightarrow> 8 word list \<times> VFile" where
  "vf_read vf n =
     (let bytes = take n (drop (vposition vf) (vcontents vf))
      in (bytes, vf\<lparr>vposition := vposition vf + length bytes\<rparr>))"

definition vf_map :: "VFile \<Rightarrow> nat \<Rightarrow> ptr" where
  "vf_map vf n = vmapping vf"

definition GBAUnloadROM :: "GBA \<Rightarrow> GBA" where
  "GBAUnloadROM gba =
     (let g1 = (if rom gba \<noteq> 0 \<and> pristineRom gba \<noteq> rom gba
                then (let g = (if yankedRomSize gba \<noteq> 0 then gba\<lparr>yankedRomSize := 0\<rparr> else gba)
                      in g\<lparr>calls := calls g @ [Call_mappedMemoryFree (rom g) SIZE_CART0]\<rparr>)
                else gba);
          g2 = g1\<lparr>rom := 0\<rparr>;
          g3 = (if romVf g2 \<noteq> None
                then g2\<lparr>calls := calls g2 @ [Call_unmap (pristineRom g2) (pristineRomSize g2),
                                                Call_close],
                        romVf := None\<rparr>
                else g2);
          g4 = g3\<lparr>pristineRom := 0\<rparr>;
          g5 = g4\<lparr>calls := calls g4 @ [Call_GBASavedataDeinit]\<rparr>;
          g6 = (if savedata_realVf g5
                then g5\<lparr>calls := calls g5 @ [Call_savedata_close], savedata_realVf := False\<rparr>
                else g5)
      in g6\<lparr>idleLoop := IDLE_LOOP_NONE\<rparr>)"

text \<open>
  \<open>GBALoadMB\<close> and \<open>GBALoadROM\<close> answer their \<open>bool\<close> together with the new state.
  \<open>romVf\<close> holds the file as the seek left it.
\<close>

definition GBALoadMB :: "Ext \<Rightarrow> GBA \<Rightarrow> VFile \<Rightarrow> bool \<times> GBA" where
  "GBALoadMB X gba vf =
     (let g1 = GBAUnloadROM gba;
          n = vf_size vf;
          vf1 = snd (vf_seek vf 0);
          n1 = (if n > SIZE_WORKING_RAM then SIZE_WORKING_RAM else n);
          g2 = g1\<lparr>romVf := Some vf1, pristineRomSize := n1, pristineRom := vf_map vf1 n1\<rparr>
      in if pristineRom g2 = 0 then (False, g2)
         else (True, g2\<lparr>yankedRomSize := 0, romSize := 0, romMask := 0,
                        romCrc32 := doCrc32 X (pristineRom g2) (pristineRomSize g2)\<rparr>))"

definition GBALoadROM :: "Ext \<Rightarrow> GBA \<Rightarrow> VFile option \<Rightarrow> bool \<times> GBA" where
  "GBALoadROM X gba vfp =
     (case vfp of
        None \<Rightarrow> (False, gba)
      | Some vf \<Rightarrow>
          (let g1 = GBAUnloadROM gba;
               n = vf_size vf;
               vf1 = snd (vf_seek vf 0);
               n1 = (if n > SIZE_CART0 then SIZE_CART0 else n);
               g2 = g1\<lparr>romVf := Some vf1, pristineRomSize := n1, pristineRom := vf_map vf1 n1\<rparr>
           in if pristineRom g2 = 0 then (False, g2)
              else (True, g2\<lparr>yankedRomSize := 0,
                             rom := pristineRom g2,
                             romSize := pristineRomSize g2,
                             romMask := romMaskOf (pristineRomSize g2),
                             mirroring := False,
                             romCrc32 := doCrc32 X (pristineRom g2) (pristineRomSize g2),
                             calls := calls g2 @ [Call_GBAHardwareInit, Call_GBAVFameDetect]\<rparr>)))"

definition GBAYankROM :: "Ext \<Rightarrow> GBA \<Rightarrow> GBA" where
  "GBAYankROM X gba =
     GBARaiseIRQ X (gba\<lparr>yankedRomSize := romSize gba, romSize := 0, romMask := 0\<rparr>) IRQ_GAMEPAK"

definition GBAReset :: "Ext \<Rightarrow> GBA \<Rightarrow> GBA" where
  "GBAReset X gba =
     (let c1 = armSetPrivilegeMode X MODE_IRQ (cpu gba);
          c2 = c1\<lparr>gprs := (gprs c1)(ARM_SP := SP_BASE_IRQ)\<rparr>;
          c3 = armSetPrivilegeMode X MODE_SUPERVISOR c2;
          c4 = c3\<lparr>gprs := (gprs c3)(ARM_SP := SP_BASE_SUPERVISOR)\<rparr>;
          c5 = armSetPrivilegeMode X MODE_SYSTEM c4;
          c6 = c5\<lparr>gprs := (gprs c5)(ARM_SP := SP_BASE_SYSTEM)\<rparr>;
          g1 = gba\<lparr>cpu := c6\<rparr>;
          g2 = (case rr g1 of
                  None \<Rightarrow> g1\<lparr>calls := calls g1 @ [Call_GBASavedataUnmask]\<rparr>
                | Some (playing, recording) \<Rightarrow>
                    if \<not> playing \<and> \<not> recording
                    then g1\<lparr>calls := calls g1 @ [Call_GBASavedataUnmask]\<rparr> else g1);
          g3 = g2\<lparr>cpuBlocked := False\<rparr>;
          g4 = (if yankedRomSize g3 \<noteq> 0
                then g3\<lparr>romSize := yankedRomSize g3,
                        romMask := romMaskOf (yankedRomSize g3),
                        yankedRomSize := 0\<rparr>
                else g3);
          g5 = g4\<lparr>calls := calls g4 @ [Call_mTimingClear, Call_GBAMemoryReset,
                                          Call_GBAVideoReset, Call_GBAAudioReset]\<rparr>;
          g6 = g5\<lparr>io := ioInit X (io g5)\<rparr>;
          g7 = g6\<lparr>calls := calls g6 @ [Call_GBATimerInit, Call_GBASIOReset]\<rparr>
      in g7\<lparr>lastJump := 0, haltPending := False, idleDetectionStep := 0,
             idleDetectionFailures := 0, debug := False,
             debugString := replicate (length (debugString g7)) 0\<rparr>)"

text \<open>
  \<open>struct Patch\<close> (util/patch.h): the output size for an input size, and whether the
  transform from the input buffer into the output buffer succeeds.
\<close>

record Patch =
  outputSize :: "nat \<Rightarrow> nat"
  applyPatch :: "ptr \<Rightarrow> nat \<Rightarrow> ptr \<Rightarrow> nat \<Rightarrow> bool"

definition GBAApplyPatch :: "Ext \<Rightarrow> GBA \<Rightarrow> Patch \<Rightarrow> GBA" where
  "GBAApplyPatch X gba patch =
     (let patchedSize = outputSize patch (romSize gba)
      in if patchedSize = 0 \<or> patchedSize > SIZE_CART0 then gba
         else (let g1 = gba\<lparr>rom := anonymousMemoryMap X SIZE_CART0\<rparr>
               in if \<not> applyPatch patch (pristineRom g1) (pristineRomSize g1) (rom g1) patchedSize
                  then g1\<lparr>calls := calls g1 @ [Call_mappedMemoryFree (rom g1) patchedSize],
                          rom := pristineRom g1\<rparr>
                  else g1\<lparr>romSize := patchedSize,
                          romMask := word_of_nat SIZE_CART0 - 1,
                          romCrc32 := doCrc32 X (rom g1) patchedSize\<rparr>))"

text \<open>
  The three ways \<open>GBAApplyPatch\<close> gives up: the computed size is zero, it exceeds the
  cartridge capacity, or the transform fails.
\<close>

definition patchSizeRejected :: "GBA \<Rightarrow> Patch \<Rightarrow> bool" where
  "patchSizeRejected gba patch =
     (outputSize patch (romSize gba) = 0 \<or> outputSize patch (romSize gba) > SIZE_CART0)"

definition patchTransformFails :: "Ext \<Rightarrow> GBA \<Rightarrow> Patch \<Rightarrow> bool" where
  "patchTransformFails X gba patch =
     (\<not> patchSizeRejected gba patch \<and>
      \<not> applyPatch patch (pristineRom gba) (pristineRomSize gba)
          (anonymousMemoryMap X SIZE_CART0) (outputSize patch (romSize gba)))"

definition patchFails :: "Ext \<Rightarrow> GBA \<Rightarrow> Patch \<Rightarrow> bool" where
  "patchFails X gba patch = (patchSizeRejected gba patch \<or> patchTransformFails X gba patch)"

section \<open>Event scheduler\<close>

text \<open>
  The inner loop of \<open>GBAProcessEvents\<close>: tick the timeline, read back the next event,
  again while the CPU is blocked. It answers \<open>None\<close> when the block never clears.
\<close>

partial_function (option) tickWhileBlocked :: "Ext \<Rightarrow> int \<Rightarrow> GBA \<Rightarrow> (int \<times> GBA) option" where
  "tickWhileBlocked X ne gba =
     (if cpuBlocked (mTimingTick X ne gba)
      then tickWhileBlocked X (nextEvent (cpu (mTimingTick X ne gba))) (mTimingTick X ne gba)
      else Some (nextEvent (cpu (mTimingTick X ne gba)), mTimingTick X ne gba))"

text \<open>
  One pass of the outer loop up to the store of \<open>cpu->nextEvent\<close>: the next-event
  distance and the state the tests below it see.
\<close>

definition GBAProcessEvents_advance :: "Ext \<Rightarrow> GBA \<Rightarrow> (int \<times> GBA) option" where
  "GBAProcessEvents_advance X gba =
     (let cyc = cycles (cpu gba);
          g1 = gba\<lparr>cpu := (cpu gba)\<lparr>cycles := 0, nextEvent := INT_MAX\<rparr>\<rparr>
      in case tickWhileBlocked X cyc g1 of
           None \<Rightarrow> None
         | Some (ne, g2) \<Rightarrow>
             (let (testEvent, g3) = GBASIOProcessEvents X cyc g2;
                  ne1 = (if testEvent < ne then testEvent else ne)
              in Some (ne1, g3\<lparr>cpu := (cpu g3)\<lparr>nextEvent := ne1\<rparr>\<rparr>)))"

text \<open>
  The rest of the pass: the tests on the next event and on the halted CPU. The flag says
  whether the loop goes round again (no \<open>break\<close>, and \<open>cpu->cycles >= nextEvent\<close>).
\<close>

definition GBAProcessEvents_decide :: "int \<Rightarrow> GBA \<Rightarrow> bool \<times> GBA" where
  "GBAProcessEvents_decide ne gba =
     (if ne = 0 then (False, gba)
      else if halted (cpu gba) \<noteq> 0
      then (let g1 = gba\<lparr>cpu := (cpu gba)\<lparr>cycles := ne\<rparr>\<rparr>
            in if ioreg g1 REG_IME = 0 \<or> ioreg g1 REG_IE = 0 then (False, g1)
               else (cycles (cpu g1) \<ge> ne, g1))
      else (cycles (cpu gba) \<ge> ne, gba))"

definition GBAProcessEvents_pass :: "Ext \<Rightarrow> GBA \<Rightarrow> (bool \<times> GBA) option" where
  "GBAProcessEvents_pass X gba =
     (case GBAProcessEvents_advance X gba of
        None \<Rightarrow> None
      | Some (ne, g) \<Rightarrow> Some (GBAProcessEvents_decide ne g))"

partial_function (option) GBAProcessEvents_loop :: "Ext \<Rightarrow> GBA \<Rightarrow> GBA option" where
  "GBAProcessEvents_loop X gba =
     Option.bind (GBAProcessEvents_pass X gba)
       (\<lambda>r. if fst r then GBAProcessEvents_loop X (snd r) else Some (snd r))"

definition GBAProcessEvents :: "Ext \<Rightarrow> GBA \<Rightarrow> GBA option" where
  "GBAProcessEvents X gba =
     (let c = cpu gba;
          g1 = gba\<lparr>bus := (if executionMode c = MODE_THUMB
                            then prefetch c 1 OR push_bit 16 (prefetch c 1)
                            else prefetch c 1)\<rparr>;
          g2 = (if springIRQ g1 \<noteq> 0 \<and> \<not> cpsr_i (cpu g1)
                then (ARMRaiseIRQ X g1)\<lparr>springIRQ := 0\<rparr> else g1)
      in GBAProcessEvents_loop X g2)"

section \<open>Signature checks\<close>

definition GBA_ROM_MAGIC_OFFSET :: nat where "GBA_ROM_MAGIC_OFFSET = 3"

definition GBA_ROM_MAGIC :: "8 word list" where "GBA_ROM_MAGIC = [0xEA]"

text \<open>The loop of \<open>GBAIsBIOS\<close> over the seven vector slots, from slot \<open>i\<close> on.\<close>

function interruptTableOk :: "8 word list \<Rightarrow> nat \<Rightarrow> bool" where
  "interruptTableOk tbl i =
     (if i < 7
      then (if tbl ! (4 * i + 3) \<noteq> 0xEA \<or> tbl ! (4 * i + 2) \<noteq> 0 then False
            else interruptTableOk tbl (i + 1))
      else True)"
  by pat_completeness auto
termination
  by (relation "measure (\<lambda>(tbl, i). 7 - i)") auto

declare interruptTableOk.simps [simp del]

text \<open>Both checks answer their \<open>bool\<close> together with the file as they leave it.\<close>

definition GBAIsBIOS :: "VFile \<Rightarrow> bool \<times> VFile" where
  "GBAIsBIOS vf =
     (let (r, vf1) = vf_seek vf 0
      in if r < 0 then (False, vf1)
         else (let (interruptTable, vf2) = vf_read vf1 (7 * 4)
               in if length interruptTable \<noteq> 7 * 4 then (False, vf2)
                  else (interruptTableOk interruptTable 0, vf2)))"

definition GBAIsROM :: "VFile \<Rightarrow> bool \<times> VFile" where
  "GBAIsROM vf =
     (let (r, vf1) = vf_seek vf GBA_ROM_MAGIC_OFFSET
      in if r < 0 then (False, vf1)
         else (let (signature, vf2) = vf_read vf1 (length GBA_ROM_MAGIC)
               in if length signature \<noteq> length GBA_ROM_MAGIC then (False, vf2)
                  else (let (isBios, vf3) = GBAIsBIOS vf2
                        in if isBios then (False, vf3)
                           else (signature = GBA_ROM_MAGIC, vf3))))"

section \<open>Breakpoint patcher\<close>

text \<open>
  Modelled from the spec: \<open>GBAPatch32\<close> and \<open>GBAPatch16\<close> (gba/memory.c, outside
  gba.c) write the opcode into memory at the address and hand back the bytes that were
  there. Memory is byte-addressed and little-endian.
\<close>

definition load16 :: "(32 word \<Rightarrow> 8 word) \<Rightarrow> 32 word \<Rightarrow> 16 word" where
  "load16 m a = ucast (m a) OR push_bit 8 (ucast (m (a + 1)))"

definition store16 :: "(32 word \<Rightarrow> 8 word) \<Rightarrow> 32 word \<Rightarrow> 16 word \<Rightarrow> (32 word \<Rightarrow> 8 word)" where
  "store16 m a v = m(a := ucast v, a + 1 := ucast (drop_bit 8 v))"

definition load32 :: "(32 word \<Rightarrow> 8 word) \<Rightarrow> 32 word \<Rightarrow> 32 word" where
  "load32 m a =
     ucast (m a) OR push_bit 8 (ucast (m (a + 1))) OR push_bit 16 (ucast (m (a + 2)))
       OR push_bit 24 (ucast (m (a + 3)))"

definition store32 :: "(32 word \<Rightarrow> 8 word) \<Rightarrow> 32 word \<Rightarrow> 32 word \<Rightarrow> (32 word \<Rightarrow> 8 word)" where
  "store32 m a v =
     m(a := ucast v, a + 1 := ucast (drop_bit 8 v), a + 2 := ucast (drop_bit 16 v),
       a + 3 := ucast (drop_bit 24 v))"

definition GBAPatch32 :: "GBA \<Rightarrow> 32 word \<Rightarrow> 32 word \<Rightarrow> 32 word \<times> GBA" where
  "GBAPatch32 gba address v =
     (load32 (busMemory gba) address,
      gba\<lparr>busMemory := store32 (busMemory gba) address v\<rparr>)"

definition GBAPatch16 :: "GBA \<Rightarrow> 32 word \<Rightarrow> 16 word \<Rightarrow> 16 word \<times> GBA" where
  "GBAPatch16 gba address v =
     (load16 (busMemory gba) address,
      gba\<lparr>busMemory := store16 (busMemory gba) address v\<rparr>)"

text \<open>
  The search of \<open>GBASetBreakpoint\<close> through the component table, from index
  \<open>immediate\<close> on: the first index holding the component, or \<open>numComponents\<close>.
\<close>

function findComponent :: "(nat \<Rightarrow> ptr) \<Rightarrow> nat \<Rightarrow> ptr \<Rightarrow> nat \<Rightarrow> nat" where
  "findComponent comps n component immediate =
     (if immediate < n
      then (if comps immediate = component then immediate
            else findComponent comps n component (immediate + 1))
      else immediate)"
  by pat_completeness auto
termination
  by (relation "measure (\<lambda>(comps, n, component, immediate). n - immediate)") auto

declare findComponent.simps [simp del]

definition armTrapOpcode :: "nat \<Rightarrow> 32 word" where
  "armTrapOpcode immediate =
     0xE1200070 OR (word_of_nat immediate AND 0xF)
       OR push_bit 4 (word_of_nat immediate AND 0xFFF0)"

definition thumbTrapOpcode :: "nat \<Rightarrow> 16 word" where
  "thumbTrapOpcode immediate = 0xBE00 OR (word_of_nat immediate AND 0xFF)"

text \<open>
  \<open>GBASetBreakpoint\<close> takes the prior content of \<open>*opcode\<close> and answers its content on
  return: untouched when the component is not in the table.
\<close>

definition GBASetBreakpoint ::
  "GBA \<Rightarrow> ptr \<Rightarrow> 32 word \<Rightarrow> ExecutionMode \<Rightarrow> 32 word \<Rightarrow> 32 word \<times> GBA" where
  "GBASetBreakpoint gba component address mode opcode =
     (let immediate = findComponent (components (cpu gba)) (numComponents (cpu gba)) component 0
      in if immediate = numComponents (cpu gba) then (opcode, gba)
         else if mode = MODE_ARM
         then GBAPatch32 gba address (armTrapOpcode immediate)
         else (let (old, g) = GBAPatch16 gba address (thumbTrapOpcode immediate)
               in (ucast old, g)))"

definition GBAClearBreakpoint :: "GBA \<Rightarrow> 32 word \<Rightarrow> ExecutionMode \<Rightarrow> 32 word \<Rightarrow> GBA" where
  "GBAClearBreakpoint gba address mode opcode =
     (if mode = MODE_ARM then snd (GBAPatch32 gba address opcode)
      else snd (GBAPatch16 gba address (ucast opcode)))"

section \<open>Example machines\<close>

text \<open>
  A concrete set of collaborators and a machine as \<open>GBAInit\<close> leaves it, for evaluating
  the functions above. The timeline of \<open>ext0\<close> always reports the next event ten cycles
  ahead and never blocks; its interrupt entry masks further interrupts.
\<close>

definition ext0 :: Ext where
  "ext0 = \<lparr>armRaiseIRQ = (\<lambda>c. if cpsr_i c then c
                               else c\<lparr>cpsr_i := True, executionMode := MODE_ARM\<rparr>),
           armSetPrivilegeMode = (\<lambda>m c. c),
           ioInit = (\<lambda>r i. 0),
           doCrc32 = (\<lambda>p n. 0),
           anonymousMemoryMap = (\<lambda>n. 4096),
           mTimingTick = (\<lambda>n g. g\<lparr>cpu := (cpu g)\<lparr>nextEvent := 10\<rparr>, cpuBlocked := False\<rparr>),
           GBASIOProcessEvents = (\<lambda>n g. (INT_MAX, g))\<rparr>"

definition cpu0 :: ARMCore where
  "cpu0 = \<lparr>gprs = (\<lambda>r. 0), cpsr_i = False, cycles = 0, nextEvent = 0, halted = 0,
            prefetch = (\<lambda>i. 0), executionMode = MODE_ARM, numComponents = 2,
            components = (\<lambda>i. if i = 0 then 500 else if i = 1 then 600 else 0)\<rparr>"

definition gba0 :: GBA where
  "gba0 = \<lparr>cpu = cpu0, io = (\<lambda>i. 0), rom = 0, romSize = 0, romMask = 0, mirroring = False,
            savedata_realVf = False, pristineRom = 0, pristineRomSize = 0, yankedRomSize = 0,
            romVf = None, romCrc32 = 0, idleLoop = IDLE_LOOP_NONE, springIRQ = 0,
            cpuBlocked = False, bus = 0, rr = None, lastJump = 0, haltPending = False,
            idleDetectionStep = 0, idleDetectionFailures = 0, debug = False,
            debugString = [], busMemory = (\<lambda>a. 0), calls = []\<rparr>"

text \<open>The machine with given IE, IF and IME registers, and its halted variant.\<close>

definition irqState :: "16 word \<Rightarrow> 16 word \<Rightarrow> 16 word \<Rightarrow> GBA" where
  "irqState ie iflags ime =
     gba0\<lparr>io := (\<lambda>i. if i = drop_bit 1 REG_IE then ie
                      else if i = drop_bit 1 REG_IF then iflags
                      else if i = drop_bit 1 REG_IME then ime else 0)\<rparr>"

definition haltedState :: "16 word \<Rightarrow> 16 word \<Rightarrow> 16 word \<Rightarrow> GBA" where
  "haltedState ie iflags ime = (irqState ie iflags ime)\<lparr>cpu := cpu0\<lparr>halted := 1\<rparr>\<rparr>"

text \<open>A sixteen-byte cartridge image mapped at address 32768, and two patches.\<close>

definition romFile :: VFile where
  "romFile = \<lparr>vcontents = [0x2E, 0, 0, 0xEA, 0, 0, 0, 0, 0, 0, 0, 0, 0, 0, 0, 0],
              vposition = 0, vmapping = 32768\<rparr>"

definition growingPatch :: Patch where
  "growingPatch = \<lparr>outputSize = (\<lambda>n. n + 16), applyPatch = (\<lambda>src n dst m. True)\<rparr>"

definition brokenPatch :: Patch where
  "brokenPatch = \<lparr>outputSize = (\<lambda>n. n), applyPatch = (\<lambda>src n dst m. False)\<rparr>"

text \<open>
  The machine after loading that image, after patching the loaded image with
  \<open>growingPatch\<close>, and after yanking the loaded cartridge.
\<close>

definition loadedState :: GBA where
  "loadedState = snd (GBALoadROM ext0 gba0 (Some romFile))"

definition patchedState :: GBA where
  "patchedState = GBAApplyPatch ext0 loadedState growingPatch"

definition yankedState :: GBA where
  "yankedState = GBAYankROM ext0 loadedState"

text \<open>
  A machine whose memory holds at each address the low byte of the address; its component
  table holds the components 500 and 600.
\<close>

definition bpState :: GBA where
  "bpState = gba0\<lparr>busMemory := (\<lambda>a. ucast a)\<rparr>"

text \<open>An image whose seven vector slots are branches, as a BIOS begins.\<close>

definition biosFile :: VFile where
  "biosFile = \<lparr>vcontents = [0x18, 0, 0, 0xEA, 0x18, 0, 0, 0xEA, 0x18, 0, 0, 0xEA,
                            0x18, 0, 0, 0xEA, 0x18, 0, 0, 0xEA, 0x18, 0, 0, 0xEA,
                            0x18, 0, 0, 0xEA, 1, 2, 3, 4],
               vposition = 0, vmapping = 0\<rparr>"

section \<open>Properties of the interrupt controller\<close>

lemma irqBit_and_iff: "w AND irqBit irq \<noteq> 0 \<longleftrightarrow> bit w irq"
proof -
  have "w AND irqBit irq = (if bit w irq then push_bit irq 1 else 0)"
    unfolding irqBit_def
    by (rule bit_eqI) (auto simp: bit_simps)
  moreover have "bit w irq \<Longrightarrow> (push_bit irq 1 :: 16 word) \<noteq> 0"
  proof -
    assume b: "bit w irq"
    then have "irq < 16" by (auto dest: bit_imp_le_length)
    then have t: "bit (push_bit irq 1 :: 16 word) irq" by (simp add: bit_simps)
    show ?thesis
    proof
      assume "(push_bit irq 1 :: 16 word) = 0"
      with t have "bit (0 :: 16 word) irq" by metis
      then show False by simp
    qed
  qed
  ultimately show ?thesis by auto
qed

lemma and_bits_nonzero:
  fixes v w :: "16 word"
  assumes "bit v b" "bit w b"
  shows "v AND w \<noteq> 0"
proof
  assume "v AND w = 0"
  then have "bit (v AND w) b = bit (0 :: 16 word) b" by simp
  with assms show False by (simp add: bit_and_iff)
qed

lemma deliveries_ARMRaiseIRQ: "deliveries (ARMRaiseIRQ X gba) = Suc (deliveries gba)"
  by (simp add: deliveries_def ARMRaiseIRQ_def)

lemma io_ARMRaiseIRQ: "io (ARMRaiseIRQ X gba) = io gba"
  by (simp add: ARMRaiseIRQ_def)

lemma io_GBARaiseIRQ:
  "io (GBARaiseIRQ X gba irq) = (io gba)(drop_bit 1 REG_IF := ioreg gba REG_IF OR irqBit irq)"
  by (simp add: GBARaiseIRQ_def Let_def ARMRaiseIRQ_def)

lemma ioreg_GBARaiseIRQ:
  "ioreg (GBARaiseIRQ X gba irq) REG_IF = ioreg gba REG_IF OR irqBit irq"
  "ioreg (GBARaiseIRQ X gba irq) REG_IE = ioreg gba REG_IE"
  "ioreg (GBARaiseIRQ X gba irq) REG_IME = ioreg gba REG_IME"
  by (simp_all add: ioreg_def io_GBARaiseIRQ REG_IF_def REG_IE_def REG_IME_def)

lemma bit_irqBit: "bit (irqBit irq) n \<longleftrightarrow> n = irq \<and> irq < 16"
  by (auto simp: irqBit_def bit_simps)

lemma deliveries_GBARaiseIRQ:
  "deliveries (GBARaiseIRQ X gba irq) =
     (if bit (ioreg gba REG_IE) irq \<and> ioreg gba REG_IME \<noteq> 0 then Suc (deliveries gba)
      else deliveries gba)"
  by (simp add: GBARaiseIRQ_def Let_def irqBit_and_iff ARMRaiseIRQ_def ioreg_def
      REG_IF_def REG_IE_def REG_IME_def deliveries_def)

lemma cpu_GBARaiseIRQ:
  "cpu (GBARaiseIRQ X gba irq) =
     (if bit (ioreg gba REG_IE) irq
      then (if ioreg gba REG_IME \<noteq> 0 then armRaiseIRQ X ((cpu gba)\<lparr>halted := 0\<rparr>)
            else (cpu gba)\<lparr>halted := 0\<rparr>)
      else cpu gba)"
  by (simp add: GBARaiseIRQ_def Let_def irqBit_and_iff ARMRaiseIRQ_def ioreg_def
      REG_IF_def REG_IE_def REG_IME_def)

lemma deliveries_GBAWriteIE:
  "deliveries (GBAWriteIE X gba v) =
     (if ioreg gba REG_IME \<noteq> 0 \<and> v AND ioreg gba REG_IF \<noteq> 0 then Suc (deliveries gba)
      else deliveries gba)"
  by (simp add: GBAWriteIE_def deliveries_ARMRaiseIRQ)

lemma deliveries_GBAWriteIME:
  "deliveries (GBAWriteIME X gba v) =
     (if v \<noteq> 0 \<and> ioreg gba REG_IE AND ioreg gba REG_IF \<noteq> 0 then Suc (deliveries gba)
      else deliveries gba)"
  by (simp add: GBAWriteIME_def deliveries_ARMRaiseIRQ)

lemma GBAWriteIME_after_raise:
  assumes "bit (ioreg gba REG_IE) irq" "v \<noteq> 0"
  shows "deliveries (GBAWriteIME X (GBARaiseIRQ X gba irq) v)
           = Suc (deliveries (GBARaiseIRQ X gba irq))"
proof -
  from assms(1) have "irq < 16" by (auto dest: bit_imp_le_length)
  then have "bit (ioreg gba REG_IF OR irqBit irq) irq"
    by (simp add: bit_or_iff bit_irqBit)
  with assms(1) have "ioreg gba REG_IE AND (ioreg gba REG_IF OR irqBit irq) \<noteq> 0"
    by (rule and_bits_nonzero)
  with assms(2) show ?thesis
    by (simp add: deliveries_GBAWriteIME ioreg_GBARaiseIRQ)
qed

lemma bit_8_3: "bit (8 :: 16 word) 3"
  by (simp add: bit_numeral_iff bit_iff_odd)

lemma ioreg_irqState:
  "ioreg (irqState ie iflags ime) REG_IE = ie"
  "ioreg (irqState ie iflags ime) REG_IF = iflags"
  "ioreg (irqState ie iflags ime) REG_IME = ime"
  by (simp_all add: irqState_def ioreg_def REG_IE_def REG_IF_def REG_IME_def)

lemma ioreg_haltedState:
  "ioreg (haltedState ie iflags ime) REG_IE = ie"
  "ioreg (haltedState ie iflags ime) REG_IF = iflags"
  "ioreg (haltedState ie iflags ime) REG_IME = ime"
  by (simp_all add: haltedState_def irqState_def ioreg_def REG_IE_def REG_IF_def REG_IME_def)

lemma deliveries_irqState:
  "deliveries (irqState ie iflags ime) = 0"
  "deliveries (haltedState ie iflags ime) = 0"
  by (simp_all add: haltedState_def irqState_def deliveries_def gba0_def)

lemma halted_haltedState: "halted (cpu (haltedState ie iflags ime)) = 1"
  by (simp add: haltedState_def)

text \<open>
  C4. Whichever of the three operations supplies the last missing part of the triple
  (master enable non-zero, enable bit set, flag bit set) for an interrupt bit \<open>b\<close>
  delivers to the CPU core itself: a write of IE whose value has the bit while IME is
  non-zero and the flag is set; a write of a non-zero IME while the enable and the flag
  bits are set; a raise of the interrupt while IME is non-zero and the enable bit is set
  (the raise sets the flag and leaves IE and IME as they were). Each does exactly one
  call of \<open>ARMRaiseIRQ\<close>.
\<close>

theorem interrupt_delivery_completing_write:
  "(ioreg gba REG_IME \<noteq> 0 \<and> bit v b \<and> bit (ioreg gba REG_IF) b
      \<longrightarrow> deliveries (GBAWriteIE X gba v) = Suc (deliveries gba))
   \<and> (w \<noteq> 0 \<and> bit (ioreg gba REG_IE) b \<and> bit (ioreg gba REG_IF) b
      \<longrightarrow> deliveries (GBAWriteIME X gba w) = Suc (deliveries gba))
   \<and> (ioreg gba REG_IME \<noteq> 0 \<and> bit (ioreg gba REG_IE) b
      \<longrightarrow> bit (ioreg (GBARaiseIRQ X gba b) REG_IF) b
          \<and> ioreg (GBARaiseIRQ X gba b) REG_IE = ioreg gba REG_IE
          \<and> ioreg (GBARaiseIRQ X gba b) REG_IME = ioreg gba REG_IME
          \<and> deliveries (GBARaiseIRQ X gba b) = Suc (deliveries gba))"
proof (intro conjI impI)
  assume "ioreg gba REG_IME \<noteq> 0 \<and> bit v b \<and> bit (ioreg gba REG_IF) b"
  then show "deliveries (GBAWriteIE X gba v) = Suc (deliveries gba)"
    by (simp add: deliveries_GBAWriteIE and_bits_nonzero [of v b])
next
  assume "w \<noteq> 0 \<and> bit (ioreg gba REG_IE) b \<and> bit (ioreg gba REG_IF) b"
  then show "deliveries (GBAWriteIME X gba w) = Suc (deliveries gba)"
    by (simp add: deliveries_GBAWriteIME and_bits_nonzero [of _ b])
next
  assume a: "ioreg gba REG_IME \<noteq> 0 \<and> bit (ioreg gba REG_IE) b"
  then have "b < 16" by (auto dest: bit_imp_le_length)
  then show "bit (ioreg (GBARaiseIRQ X gba b) REG_IF) b"
    by (simp add: ioreg_GBARaiseIRQ bit_or_iff bit_irqBit)
  show "ioreg (GBARaiseIRQ X gba b) REG_IE = ioreg gba REG_IE"
    by (simp add: ioreg_GBARaiseIRQ)
  show "ioreg (GBARaiseIRQ X gba b) REG_IME = ioreg gba REG_IME"
    by (simp add: ioreg_GBARaiseIRQ)
  from a show "deliveries (GBARaiseIRQ X gba b) = Suc (deliveries gba)"
    by (simp add: deliveries_GBARaiseIRQ)
qed

theorem interrupt_delivery_completing_write_witness:
  "deliveries (GBAWriteIE ext0 (irqState 0 8 1) 8) = 1
   \<and> deliveries (GBAWriteIME ext0 (irqState 8 8 0) 1) = 1
   \<and> bit (ioreg (GBARaiseIRQ ext0 (irqState 8 0 1) 3) REG_IF) 3
   \<and> deliveries (GBARaiseIRQ ext0 (irqState 8 0 1) 3) = 1"
  using interrupt_delivery_completing_write
      [where gba = "irqState 0 8 1" and v = 8 and b = 3 and X = ext0 and w = 1]
    interrupt_delivery_completing_write
      [where gba = "irqState 8 8 0" and v = 8 and b = 3 and X = ext0 and w = 1]
    interrupt_delivery_completing_write
      [where gba = "irqState 8 0 1" and v = 8 and b = 3 and X = ext0 and w = 1]
  by (simp add: ioreg_irqState deliveries_irqState bit_8_3)

text \<open>
  C5. For every interrupt number of the 16-bit registers, \<open>GBARaiseIRQ\<close> sets the bit in
  IF. If the enable bit is set it clears the halted flag, and then enters the CPU core's
  interrupt routine exactly when IME is non-zero too; the number of deliveries grows by
  one in that case and not at all otherwise. With the enable bit set and IME zero the CPU
  is unhalted without a delivery, and a following write of any non-zero IME delivers.
\<close>

theorem GBARaiseIRQ_semantics:
  "irq < 16 \<Longrightarrow>
   ioreg (GBARaiseIRQ X gba irq) REG_IF = ioreg gba REG_IF OR irqBit irq
   \<and> bit (ioreg (GBARaiseIRQ X gba irq) REG_IF) irq
   \<and> (bit (ioreg gba REG_IE) irq \<longrightarrow>
        cpu (GBARaiseIRQ X gba irq) =
          (if ioreg gba REG_IME \<noteq> 0 then armRaiseIRQ X ((cpu gba)\<lparr>halted := 0\<rparr>)
           else (cpu gba)\<lparr>halted := 0\<rparr>))
   \<and> deliveries (GBARaiseIRQ X gba irq) =
        (if bit (ioreg gba REG_IE) irq \<and> ioreg gba REG_IME \<noteq> 0
         then Suc (deliveries gba) else deliveries gba)
   \<and> (bit (ioreg gba REG_IE) irq \<and> ioreg gba REG_IME = 0 \<longrightarrow>
        halted (cpu (GBARaiseIRQ X gba irq)) = 0
        \<and> deliveries (GBARaiseIRQ X gba irq) = deliveries gba
        \<and> (\<forall>v. v \<noteq> 0 \<longrightarrow>
              deliveries (GBAWriteIME X (GBARaiseIRQ X gba irq) v)
                = Suc (deliveries (GBARaiseIRQ X gba irq))))"
proof (intro conjI)
  assume irq: "irq < 16"
  show "ioreg (GBARaiseIRQ X gba irq) REG_IF = ioreg gba REG_IF OR irqBit irq"
    by (simp add: ioreg_GBARaiseIRQ)
  from irq show "bit (ioreg (GBARaiseIRQ X gba irq) REG_IF) irq"
    by (simp add: ioreg_GBARaiseIRQ bit_or_iff bit_irqBit)
  show "bit (ioreg gba REG_IE) irq \<longrightarrow>
           cpu (GBARaiseIRQ X gba irq) =
             (if ioreg gba REG_IME \<noteq> 0 then armRaiseIRQ X ((cpu gba)\<lparr>halted := 0\<rparr>)
              else (cpu gba)\<lparr>halted := 0\<rparr>)"
    by (simp add: cpu_GBARaiseIRQ)
  show "deliveries (GBARaiseIRQ X gba irq) =
           (if bit (ioreg gba REG_IE) irq \<and> ioreg gba REG_IME \<noteq> 0
            then Suc (deliveries gba) else deliveries gba)"
    by (rule deliveries_GBARaiseIRQ)
  show "bit (ioreg gba REG_IE) irq \<and> ioreg gba REG_IME = 0 \<longrightarrow>
           halted (cpu (GBARaiseIRQ X gba irq)) = 0
           \<and> deliveries (GBARaiseIRQ X gba irq) = deliveries gba
           \<and> (\<forall>v. v \<noteq> 0 \<longrightarrow>
                 deliveries (GBAWriteIME X (GBARaiseIRQ X gba irq) v)
                   = Suc (deliveries (GBARaiseIRQ X gba irq)))"
    by (simp add: cpu_GBARaiseIRQ deliveries_GBARaiseIRQ GBAWriteIME_after_raise)
qed

theorem GBARaiseIRQ_semantics_witness:
  "halted (cpu (haltedState 8 0 0)) = 1
   \<and> bit (ioreg (GBARaiseIRQ ext0 (haltedState 8 0 0) 3) REG_IF) 3
   \<and> halted (cpu (GBARaiseIRQ ext0 (haltedState 8 0 0) 3)) = 0
   \<and> deliveries (GBARaiseIRQ ext0 (haltedState 8 0 0) 3) = 0
   \<and> deliveries (GBAWriteIME ext0 (GBARaiseIRQ ext0 (haltedState 8 0 0) 3) 1) = 1"
  using GBARaiseIRQ_semantics [where irq = 3 and X = ext0 and gba = "haltedState 8 0 0"]
  by (simp add: ioreg_haltedState deliveries_irqState halted_haltedState bit_8_3 bit_irqBit)

text \<open>
  C10. \<open>GBAWriteIE\<close> and \<open>GBAWriteIME\<close> either leave the machine as it is or hand it to
  the CPU core's interrupt entry, nothing else: they never assign the halted flag, so it
  keeps its value whenever that entry keeps it, and a write of IE under a zero IME or a
  write of a zero IME changes nothing at all. \<open>GBATestIRQ\<close> keeps the flag and
  \<open>GBAHalt\<close> sets it. \<open>GBARaiseIRQ\<close> leaves the CPU alone when the enable bit of its
  interrupt is clear, and clears the halted flag when it is set.
\<close>

theorem interrupt_writes_frame:
  "(GBAWriteIE X gba v = gba \<or> GBAWriteIE X gba v = ARMRaiseIRQ X gba)
   \<and> (GBAWriteIME X gba v = gba \<or> GBAWriteIME X gba v = ARMRaiseIRQ X gba)
   \<and> ((\<forall>c. halted (armRaiseIRQ X c) = halted c) \<longrightarrow>
         halted (cpu (GBAWriteIE X gba v)) = halted (cpu gba)
         \<and> halted (cpu (GBAWriteIME X gba v)) = halted (cpu gba))
   \<and> (ioreg gba REG_IME = 0 \<longrightarrow> GBAWriteIE X gba v = gba)
   \<and> (v = 0 \<longrightarrow> GBAWriteIME X gba v = gba)
   \<and> halted (cpu (GBATestIRQ gba)) = halted (cpu gba)
   \<and> halted (cpu (GBAHalt gba)) = 1
   \<and> (\<not> bit (ioreg gba REG_IE) irq \<longrightarrow> cpu (GBARaiseIRQ X gba irq) = cpu gba)
   \<and> (bit (ioreg gba REG_IE) irq \<and> ioreg gba REG_IME = 0 \<longrightarrow>
         halted (cpu (GBARaiseIRQ X gba irq)) = 0)"
  by (simp add: GBAWriteIE_def GBAWriteIME_def GBATestIRQ_def GBAHalt_def cpu_GBARaiseIRQ
      ARMRaiseIRQ_def)

theorem interrupt_writes_frame_witness:
  "GBAWriteIE ext0 (haltedState 0 8 0) 8 = haltedState 0 8 0
   \<and> GBAWriteIME ext0 (haltedState 8 8 0) 0 = haltedState 8 8 0
   \<and> halted (cpu (GBAWriteIE ext0 (haltedState 0 8 1) 8)) = 1
   \<and> halted (cpu (GBAWriteIME ext0 (haltedState 8 8 0) 1)) = 1
   \<and> halted (cpu (GBARaiseIRQ ext0 (haltedState 0 0 1) 3)) = 1
   \<and> halted (cpu (GBARaiseIRQ ext0 (haltedState 8 0 0) 3)) = 0"
proof -
  have h: "\<forall>c. halted (armRaiseIRQ ext0 c) = halted c" by (simp add: ext0_def)
  show ?thesis
    using interrupt_writes_frame [where X = ext0 and gba = "haltedState 0 8 0" and v = 8 and irq = 3]
      interrupt_writes_frame [where X = ext0 and gba = "haltedState 8 8 0" and v = 0 and irq = 3]
      interrupt_writes_frame [where X = ext0 and gba = "haltedState 0 8 1" and v = 8 and irq = 3]
      interrupt_writes_frame [where X = ext0 and gba = "haltedState 8 8 0" and v = 1 and irq = 3]
      interrupt_writes_frame [where X = ext0 and gba = "haltedState 0 0 1" and v = 0 and irq = 3]
      interrupt_writes_frame [where X = ext0 and gba = "haltedState 8 0 0" and v = 0 and irq = 3]
    by (simp add: ioreg_haltedState halted_haltedState bit_8_3 h)
qed

section \<open>Properties of the ROM lifecycle\<close>

lemma pow2AtLeast_eq:
  "2 ^ k < 2 * n \<Longrightarrow> n \<le> 2 ^ k \<Longrightarrow> j \<le> k \<Longrightarrow> k - j \<le> fuel
     \<Longrightarrow> pow2AtLeast fuel (2 ^ j) n = 2 ^ k"
proof (induction fuel arbitrary: j)
  case 0
  then show ?case by simp
next
  case (Suc fuel)
  show ?case
  proof (cases "n \<le> 2 ^ j")
    case True
    with Suc.prems(1) have "(2::nat) ^ k < 2 ^ Suc j" by simp
    then have "k < Suc j" by (simp only: power_strict_increasing_iff [of 2 k "Suc j"])
    with Suc.prems(3) have "k = j" by simp
    with True show ?thesis by simp
  next
    case False
    have "j < k"
    proof (rule ccontr)
      assume "\<not> j < k"
      then have "(2::nat) ^ k \<le> 2 ^ j" by simp
      with Suc.prems(2) False show False by linarith
    qed
    with Suc.prems have "pow2AtLeast fuel (2 ^ Suc j) n = 2 ^ k"
      by (intro Suc.IH) simp_all
    with False show ?thesis by simp
  qed
qed

lemma romMaskOf_eq:
  assumes "2 ^ k < 2 * n" "n \<le> 2 ^ k" "k \<le> 31"
  shows "romMaskOf n = 2 ^ k - 1"
proof -
  have "n \<le> 2 ^ 31"
    using assms(2,3) power_increasing [of k 31 "2::nat"] by simp
  then have "n < 2 ^ 32" by simp
  then have u: "unat (word_of_nat n :: 32 word) = n"
    by (simp add: unat_of_nat)
  have "pow2AtLeast 32 (2 ^ 0) n = 2 ^ k"
    using assms by (intro pow2AtLeast_eq) simp_all
  then show ?thesis
    by (simp add: romMaskOf_def toPow2_def u)
qed

lemma romMaskOf_0: "romMaskOf 0 = 0"
  by (simp add: romMaskOf_def toPow2_def eval_nat_numeral)

lemma GBARaiseIRQ_rom_frame:
  "rom (GBARaiseIRQ X gba irq) = rom gba"
  "romSize (GBARaiseIRQ X gba irq) = romSize gba"
  "romMask (GBARaiseIRQ X gba irq) = romMask gba"
  "yankedRomSize (GBARaiseIRQ X gba irq) = yankedRomSize gba"
  "pristineRom (GBARaiseIRQ X gba irq) = pristineRom gba"
  by (simp_all add: GBARaiseIRQ_def Let_def ARMRaiseIRQ_def)

lemma GBAYankROM_fields:
  "rom (GBAYankROM X gba) = rom gba"
  "romSize (GBAYankROM X gba) = 0"
  "romMask (GBAYankROM X gba) = 0"
  "yankedRomSize (GBAYankROM X gba) = romSize gba"
  "pristineRom (GBAYankROM X gba) = pristineRom gba"
  by (simp_all add: GBAYankROM_def GBARaiseIRQ_rom_frame)

lemma GBAReset_fields:
  "romSize (GBAReset X gba) = (if yankedRomSize gba \<noteq> 0 then yankedRomSize gba else romSize gba)"
  "romMask (GBAReset X gba) =
     (if yankedRomSize gba \<noteq> 0 then romMaskOf (yankedRomSize gba) else romMask gba)"
  "yankedRomSize (GBAReset X gba) = 0"
  "rom (GBAReset X gba) = rom gba"
  "pristineRom (GBAReset X gba) = pristineRom gba"
  by (simp_all add: GBAReset_def Let_def split: option.split prod.split)

lemma GBAUnloadROM_fields:
  "rom (GBAUnloadROM gba) = 0"
  "pristineRom (GBAUnloadROM gba) = 0"
  "idleLoop (GBAUnloadROM gba) = IDLE_LOOP_NONE"
  "romVf (GBAUnloadROM gba) = None"
  "romSize (GBAUnloadROM gba) = romSize gba"
  "romMask (GBAUnloadROM gba) = romMask gba"
  "yankedRomSize (GBAUnloadROM gba) =
     (if rom gba \<noteq> 0 \<and> pristineRom gba \<noteq> rom gba then 0 else yankedRomSize gba)"
  by (simp_all add: GBAUnloadROM_def Let_def)

lemma ext0_simps:
  "anonymousMemoryMap ext0 n = 4096"
  "doCrc32 ext0 p n = 0"
  "armRaiseIRQ ext0 c = (if cpsr_i c then c else c\<lparr>cpsr_i := True, executionMode := MODE_ARM\<rparr>)"
  "armSetPrivilegeMode ext0 m c = c"
  "ioInit ext0 r = (\<lambda>i. 0)"
  "mTimingTick ext0 k g = g\<lparr>cpu := (cpu g)\<lparr>nextEvent := 10\<rparr>, cpuBlocked := False\<rparr>"
  "GBASIOProcessEvents ext0 k g = (INT_MAX, g)"
  by (simp_all add: ext0_def)

lemma romFile_simps:
  "vf_size romFile = 16"
  "snd (vf_seek romFile 0) = romFile"
  "vf_map romFile n = 32768"
  by (simp_all add: romFile_def vf_size_def vf_seek_def vf_map_def)

lemma GBALoadROM_romFile:
  "GBALoadROM ext0 gba0 (Some romFile) =
     (True, gba0\<lparr>rom := 32768, romSize := 16, romMask := romMaskOf 16,
                  pristineRom := 32768, pristineRomSize := 16, romVf := Some romFile,
                  calls := [Call_GBASavedataDeinit, Call_GBAHardwareInit, Call_GBAVFameDetect]\<rparr>)"
  by (simp add: GBALoadROM_def GBAUnloadROM_def Let_def gba0_def ext0_simps romFile_simps
      SIZE_CART0_def)

lemma loadedState_simps:
  "GBALoadROM ext0 gba0 (Some romFile) = (True, loadedState)"
  "rom loadedState = 32768"
  "pristineRom loadedState = 32768"
  "romSize loadedState = 16"
  "pristineRomSize loadedState = 16"
  "romMask loadedState = romMaskOf 16"
  "yankedRomSize loadedState = 0"
  by (simp_all add: loadedState_def GBALoadROM_romFile) (simp add: gba0_def)

lemma patchedState_eq:
  "patchedState = loadedState\<lparr>rom := 4096, romSize := 32, romMask := 0x1FFFFFF, romCrc32 := 0\<rparr>"
  by (simp add: patchedState_def GBAApplyPatch_def loadedState_simps growingPatch_def
      ext0_simps SIZE_CART0_def Let_def)

lemma patchedState_simps:
  "rom patchedState = 4096"
  "pristineRom patchedState = 32768"
  "romSize patchedState = 32"
  "romMask patchedState = 0x1FFFFFF"
  by (simp_all add: patchedState_eq loadedState_simps)

text \<open>
  C6. From any state, \<open>GBAYankROM\<close> followed by \<open>GBAReset\<close> gives back the ROM size held
  before the yank, leaves the mask derived from that size (next power of two, minus one)
  and the yanked-size slot at zero; the ROM buffers are the ones held before.
\<close>

theorem yank_reset_roundtrip:
  "romSize (GBAReset X (GBAYankROM X gba)) = romSize gba
   \<and> romMask (GBAReset X (GBAYankROM X gba)) = romMaskOf (romSize (GBAReset X (GBAYankROM X gba)))
   \<and> yankedRomSize (GBAReset X (GBAYankROM X gba)) = 0
   \<and> rom (GBAReset X (GBAYankROM X gba)) = rom gba
   \<and> pristineRom (GBAReset X (GBAYankROM X gba)) = pristineRom gba"
  by (simp add: GBAReset_fields GBAYankROM_fields romMaskOf_0)

text \<open>
  C7, at a cartridge that was loaded and then yanked: \<open>GBAUnloadROM\<close> clears both ROM
  pointers and the idle-loop classification, but the yanked-size slot still holds the
  sixteen bytes of the image, and a following \<open>GBAReset\<close> takes that for the ROM size
  although no ROM is mapped. The slot is cleared only on the path that frees a patched
  copy.
\<close>

theorem GBAUnloadROM_yanked_pristine:
  "GBALoadROM ext0 gba0 (Some romFile) = (True, loadedState)
   \<and> rom yankedState = pristineRom yankedState
   \<and> yankedRomSize yankedState = 16
   \<and> rom (GBAUnloadROM yankedState) = 0
   \<and> pristineRom (GBAUnloadROM yankedState) = 0
   \<and> idleLoop (GBAUnloadROM yankedState) = IDLE_LOOP_NONE
   \<and> yankedRomSize (GBAUnloadROM yankedState) = 16
   \<and> romSize (GBAReset ext0 (GBAUnloadROM yankedState)) = 16
   \<and> yankedRomSize (GBAUnloadROM (GBAYankROM ext0 patchedState)) = 0"
  by (simp add: GBAUnloadROM_fields GBAYankROM_fields GBAReset_fields loadedState_simps
      yankedState_def patchedState_simps)

lemma patchFails_brokenPatch:
  "romSize gba \<noteq> 0 \<Longrightarrow> romSize gba \<le> SIZE_CART0 \<Longrightarrow> patchFails X gba brokenPatch"
  by (simp add: patchFails_def patchTransformFails_def patchSizeRejected_def brokenPatch_def)

lemma growingPatch_succeeds: "\<not> patchFails ext0 loadedState growingPatch"
  by (simp add: patchFails_def patchTransformFails_def patchSizeRejected_def
      growingPatch_def loadedState_simps SIZE_CART0_def)

text \<open>
  C1 fails as stated: a machine whose active ROM is already a patched copy (the image
  mapped at 32768, patched into the buffer at 4096) is handed a patch whose transform
  fails; the call ends with the active ROM pointer at the pristine mapping, not where it
  was.
\<close>

theorem GBAApplyPatch_failure_moves_rom:
  "patchFails ext0 patchedState brokenPatch
   \<and> rom patchedState = 4096
   \<and> rom (GBAApplyPatch ext0 patchedState brokenPatch) = 32768"
proof -
  have "patchFails ext0 patchedState brokenPatch"
    by (rule patchFails_brokenPatch) (simp_all add: patchedState_simps SIZE_CART0_def)
  moreover have "rom (GBAApplyPatch ext0 patchedState brokenPatch) = 32768"
    by (simp add: GBAApplyPatch_def brokenPatch_def patchedState_simps SIZE_CART0_def Let_def)
  ultimately show ?thesis
    by (simp add: patchedState_simps)
qed

text \<open>
  C1 as amended. If \<open>GBAApplyPatch\<close> fails, \<open>romSize\<close> and \<open>romMask\<close> (and the pristine
  pointer) are what they were before the call. The active ROM pointer is untouched, with
  the whole machine, when the computed size is rejected; when the transform fails it is
  the pristine pointer. So it is what it was before the call whenever the active ROM was
  the pristine mapping.
\<close>

theorem GBAApplyPatch_failure_frame:
  "patchFails X gba patch \<Longrightarrow>
   romSize (GBAApplyPatch X gba patch) = romSize gba
   \<and> romMask (GBAApplyPatch X gba patch) = romMask gba
   \<and> pristineRom (GBAApplyPatch X gba patch) = pristineRom gba
   \<and> (patchSizeRejected gba patch \<longrightarrow> GBAApplyPatch X gba patch = gba)
   \<and> (patchTransformFails X gba patch \<longrightarrow> rom (GBAApplyPatch X gba patch) = pristineRom gba)
   \<and> (rom gba = pristineRom gba \<longrightarrow> rom (GBAApplyPatch X gba patch) = rom gba)"
  by (auto simp: patchFails_def patchTransformFails_def patchSizeRejected_def
      GBAApplyPatch_def Let_def)

theorem GBAApplyPatch_failure_frame_witness:
  "patchFails ext0 loadedState brokenPatch
   \<and> rom loadedState = 32768
   \<and> rom (GBAApplyPatch ext0 loadedState brokenPatch) = 32768
   \<and> romSize (GBAApplyPatch ext0 loadedState brokenPatch) = 16
   \<and> patchSizeRejected loadedState (brokenPatch\<lparr>outputSize := (\<lambda>n. 0)\<rparr>)
   \<and> GBAApplyPatch ext0 loadedState (brokenPatch\<lparr>outputSize := (\<lambda>n. 0)\<rparr>) = loadedState"
proof -
  have f: "patchFails ext0 loadedState brokenPatch"
    by (rule patchFails_brokenPatch) (simp_all add: loadedState_simps SIZE_CART0_def)
  have t: "patchTransformFails ext0 loadedState brokenPatch"
    by (simp add: patchTransformFails_def patchSizeRejected_def brokenPatch_def
        loadedState_simps SIZE_CART0_def)
  have r: "patchSizeRejected loadedState (brokenPatch\<lparr>outputSize := (\<lambda>n. 0)\<rparr>)"
    by (simp add: patchSizeRejected_def)
  then have f2: "patchFails ext0 loadedState (brokenPatch\<lparr>outputSize := (\<lambda>n. 0)\<rparr>)"
    by (simp add: patchFails_def)
  show ?thesis
    using GBAApplyPatch_failure_frame [OF f] GBAApplyPatch_failure_frame [OF f2] f t r
    by (simp add: loadedState_simps)
qed

lemma GBALoadROM_mask:
  "GBALoadROM X gba vfp = (True, g) \<Longrightarrow> romMask g = romMaskOf (romSize g)"
  by (auto simp: GBALoadROM_def Let_def split: option.splits if_splits)

lemma GBALoadMB_mask:
  "GBALoadMB X gba vf = (True, g) \<Longrightarrow> romSize g = 0 \<and> romMask g = 0"
  by (auto simp: GBALoadMB_def Let_def split: if_splits)

lemma GBAApplyPatch_success:
  "\<not> patchFails X gba patch \<Longrightarrow>
     GBAApplyPatch X gba patch =
       gba\<lparr>rom := anonymousMemoryMap X SIZE_CART0,
            romSize := outputSize patch (romSize gba),
            romMask := 0x1FFFFFF,
            romCrc32 := doCrc32 X (anonymousMemoryMap X SIZE_CART0)
                          (outputSize patch (romSize gba))\<rparr>"
  by (auto simp: patchFails_def patchTransformFails_def patchSizeRejected_def
      GBAApplyPatch_def Let_def SIZE_CART0_def)

lemma GBALoadMB_romFile: "GBALoadMB ext0 gba0 romFile = (True, snd (GBALoadMB ext0 gba0 romFile))"
proof -
  have "fst (GBALoadMB ext0 gba0 romFile)"
    by (simp add: GBALoadMB_def GBAUnloadROM_def Let_def romFile_simps)
  then show ?thesis
    by (cases "GBALoadMB ext0 gba0 romFile") simp
qed

text \<open>
  C2 fails as stated: patching the sixteen-byte image into thirty-two bytes succeeds
  and leaves the mask at the full cartridge capacity, \<open>0x1FFFFFF\<close>, where the next power
  of two of the size, minus one, is 31.
\<close>

theorem GBAApplyPatch_mask_not_size_derived:
  "GBALoadROM ext0 gba0 (Some romFile) = (True, loadedState)
   \<and> \<not> patchFails ext0 loadedState growingPatch
   \<and> romSize (GBAApplyPatch ext0 loadedState growingPatch) = 32
   \<and> romMask (GBAApplyPatch ext0 loadedState growingPatch) = 0x1FFFFFF
   \<and> romMaskOf 32 = 31
   \<and> romMask (GBAApplyPatch ext0 loadedState growingPatch)
       \<noteq> romMaskOf (romSize (GBAApplyPatch ext0 loadedState growingPatch))"
proof -
  have m: "romMaskOf 32 = 31"
    using romMaskOf_eq [of 5 32] by simp
  show ?thesis
    using growingPatch_succeeds patchedState_simps [unfolded patchedState_def]
    by (simp add: m loadedState_simps)
qed

text \<open>
  C2 as amended. After a successful \<open>GBALoadROM\<close> the mask is the next power of two of
  \<open>romSize\<close>, minus one. After a successful \<open>GBAApplyPatch\<close> the size is the patched
  size and the mask is the full-capacity mask \<open>SIZE_CART0 - 1\<close> whatever that size is;
  this is the size-derived mask when the patched size exceeds half the capacity. After
  \<open>GBAYankROM\<close> and after a successful \<open>GBALoadMB\<close> both \<open>romSize\<close> and \<open>romMask\<close>
  are zero.
\<close>

theorem romMask_after_load_and_patch:
  "(GBALoadROM X gba vfp = (True, g) \<longrightarrow> romMask g = romMaskOf (romSize g))
   \<and> (\<not> patchFails X gba patch \<longrightarrow>
        romSize (GBAApplyPatch X gba patch) = outputSize patch (romSize gba)
        \<and> romMask (GBAApplyPatch X gba patch) = 0x1FFFFFF
        \<and> (SIZE_CART0 div 2 < outputSize patch (romSize gba) \<longrightarrow>
             romMask (GBAApplyPatch X gba patch) = romMaskOf (romSize (GBAApplyPatch X gba patch))))
   \<and> romSize (GBAYankROM X gba) = 0 \<and> romMask (GBAYankROM X gba) = 0
   \<and> (GBALoadMB X gba vf = (True, g') \<longrightarrow> romSize g' = 0 \<and> romMask g' = 0)"
proof (intro conjI impI)
  assume "GBALoadROM X gba vfp = (True, g)"
  then show "romMask g = romMaskOf (romSize g)" by (rule GBALoadROM_mask)
next
  assume ok: "\<not> patchFails X gba patch"
  then show "romSize (GBAApplyPatch X gba patch) = outputSize patch (romSize gba)"
    by (simp add: GBAApplyPatch_success)
next
  assume ok: "\<not> patchFails X gba patch"
  then show "romMask (GBAApplyPatch X gba patch) = 0x1FFFFFF"
    by (simp add: GBAApplyPatch_success)
next
  assume ok: "\<not> patchFails X gba patch"
  assume big: "SIZE_CART0 div 2 < outputSize patch (romSize gba)"
  from ok have le: "outputSize patch (romSize gba) \<le> SIZE_CART0"
    by (simp add: patchFails_def patchSizeRejected_def)
  have "romMaskOf (outputSize patch (romSize gba)) = 2 ^ 25 - 1"
    using big le by (intro romMaskOf_eq) (simp_all add: SIZE_CART0_def)
  with ok show "romMask (GBAApplyPatch X gba patch)
      = romMaskOf (romSize (GBAApplyPatch X gba patch))"
    by (simp add: GBAApplyPatch_success)
next
  show "romSize (GBAYankROM X gba) = 0" by (simp add: GBAYankROM_fields)
next
  show "romMask (GBAYankROM X gba) = 0" by (simp add: GBAYankROM_fields)
next
  assume "GBALoadMB X gba vf = (True, g')"
  then show "romSize g' = 0" using GBALoadMB_mask by blast
next
  assume "GBALoadMB X gba vf = (True, g')"
  then show "romMask g' = 0" using GBALoadMB_mask by blast
qed

theorem romMask_after_load_and_patch_witness:
  "GBALoadROM ext0 gba0 (Some romFile) = (True, loadedState)
   \<and> romSize loadedState = 16
   \<and> romMask loadedState = 15
   \<and> romMask (GBAApplyPatch ext0 loadedState growingPatch) = 0x1FFFFFF
   \<and> romSize (GBAApplyPatch ext0 loadedState (growingPatch\<lparr>outputSize := (\<lambda>n. 0x1800000)\<rparr>))
       = 0x1800000
   \<and> romMaskOf 0x1800000 = 0x1FFFFFF
   \<and> GBALoadMB ext0 gba0 romFile = (True, snd (GBALoadMB ext0 gba0 romFile))
   \<and> romMask (snd (GBALoadMB ext0 gba0 romFile)) = 0"
proof -
  let ?big = "growingPatch\<lparr>outputSize := (\<lambda>n. 0x1800000)\<rparr>"
  have m: "romMaskOf 16 = 15"
    using romMaskOf_eq [of 4 16] by simp
  have p2: "\<not> patchFails ext0 loadedState ?big"
    by (simp add: patchFails_def patchTransformFails_def patchSizeRejected_def
        growingPatch_def SIZE_CART0_def)
  have half: "SIZE_CART0 div 2 < outputSize ?big (romSize loadedState)"
    by (simp add: SIZE_CART0_def)
  have a: "romMask loadedState = romMaskOf (romSize loadedState)
      \<and> romMask (snd (GBALoadMB ext0 gba0 romFile)) = 0"
    using romMask_after_load_and_patch [where X = ext0 and gba = gba0 and vfp = "Some romFile"
        and g = loadedState and vf = romFile and g' = "snd (GBALoadMB ext0 gba0 romFile)"
        and patch = growingPatch]
      loadedState_simps(1) GBALoadMB_romFile
    by simp
  have b: "romMask (GBAApplyPatch ext0 loadedState growingPatch) = 0x1FFFFFF"
    using romMask_after_load_and_patch [where X = ext0 and gba = loadedState and vfp = None
        and g = gba0 and vf = romFile and g' = gba0 and patch = growingPatch]
      growingPatch_succeeds
    by simp
  note T = romMask_after_load_and_patch [where X = ext0 and gba = loadedState and vfp = None
        and g = gba0 and vf = romFile and g' = gba0 and patch = ?big]
  from T p2 have s: "romSize (GBAApplyPatch ext0 loadedState ?big)
      = outputSize ?big (romSize loadedState)"
    by blast
  from T p2 have k: "romMask (GBAApplyPatch ext0 loadedState ?big) = 0x1FFFFFF"
    by blast
  from T p2 half have e: "romMask (GBAApplyPatch ext0 loadedState ?big)
      = romMaskOf (romSize (GBAApplyPatch ext0 loadedState ?big))"
    by blast
  have s': "romSize (GBAApplyPatch ext0 loadedState ?big) = 0x1800000"
    using s by simp
  have "romMaskOf 0x1800000 = romMaskOf (romSize (GBAApplyPatch ext0 loadedState ?big))"
    by (simp only: s')
  also have "\<dots> = romMask (GBAApplyPatch ext0 loadedState ?big)"
    using e by (rule sym)
  also have "\<dots> = 0x1FFFFFF" by (rule k)
  finally have c: "romMaskOf 0x1800000 = 0x1FFFFFF" .
  from a b c s' show ?thesis
    using loadedState_simps(1) GBALoadMB_romFile
    by (simp add: loadedState_simps(4) m)
qed

section \<open>Properties of the signature checks\<close>

lemma GBAIsBIOS_contents:
  "fst (GBAIsBIOS vf) \<longleftrightarrow>
     28 \<le> length (vcontents vf) \<and> interruptTableOk (take 28 (vcontents vf)) 0"
  by (auto simp: GBAIsBIOS_def vf_seek_def vf_read_def Let_def split: prod.splits)

lemma interruptTableOk_iff:
  "interruptTableOk tbl j \<longleftrightarrow>
     (\<forall>i. j \<le> i \<and> i < 7 \<longrightarrow> tbl ! (4 * i + 3) = 0xEA \<and> tbl ! (4 * i + 2) = 0)"
proof (induction tbl j rule: interruptTableOk.induct)
  case (1 tbl i)
  show ?case
  proof (cases "i < 7")
    case False
    then show ?thesis by (subst interruptTableOk.simps) auto
  next
    case True
    show ?thesis
    proof (cases "tbl ! (4 * i + 3) \<noteq> 0xEA \<or> tbl ! (4 * i + 2) \<noteq> 0")
      case bad: True
      with True show ?thesis
        by (subst interruptTableOk.simps) auto
    next
      case good: False
      have "interruptTableOk tbl i = interruptTableOk tbl (i + 1)"
        using True good by (subst interruptTableOk.simps) simp
      also have "\<dots> \<longleftrightarrow>
          (\<forall>k. i + 1 \<le> k \<and> k < 7 \<longrightarrow> tbl ! (4 * k + 3) = 0xEA \<and> tbl ! (4 * k + 2) = 0)"
        using True good by (intro "1.IH") simp_all
      also have "\<dots> \<longleftrightarrow>
          (\<forall>k. i \<le> k \<and> k < 7 \<longrightarrow> tbl ! (4 * k + 3) = 0xEA \<and> tbl ! (4 * k + 2) = 0)"
        using good by (metis Suc_eq_plus1 Suc_leI le_neq_implies_less le_SucE nat_less_le Suc_le_eq)
      finally show ?thesis .
    qed
  qed
qed

lemma interruptTableOk_slot0:
  "interruptTableOk tbl 0 \<Longrightarrow> tbl ! 3 = 0xEA \<and> tbl ! 2 = 0"
proof -
  assume "interruptTableOk tbl 0"
  then have "\<forall>i. 0 \<le> i \<and> i < 7 \<longrightarrow> tbl ! (4 * i + 3) = 0xEA \<and> tbl ! (4 * i + 2) = 0"
    by (simp only: interruptTableOk_iff)
  then have "(0::nat) \<le> 0 \<and> (0::nat) < 7 \<longrightarrow> tbl ! (4 * 0 + 3) = 0xEA \<and> tbl ! (4 * 0 + 2) = 0"
    by (rule spec)
  then show ?thesis by (simp add: numeral_2_eq_2)
qed

lemma GBAIsROM_contents:
  "fst (GBAIsROM vf) \<longleftrightarrow>
     4 \<le> length (vcontents vf) \<and> \<not> fst (GBAIsBIOS vf) \<and> vcontents vf ! 3 = 0xEA"
proof (cases "4 \<le> length (vcontents vf)")
  case True
  then have t: "take (Suc 0) (drop 3 (vcontents vf)) = [vcontents vf ! 3]"
    by (simp add: take_Suc_conv_app_nth Cons_nth_drop_Suc [symmetric])
  from True show ?thesis
    by (auto simp: GBAIsROM_def GBA_ROM_MAGIC_OFFSET_def GBA_ROM_MAGIC_def vf_seek_def
        vf_read_def Let_def t GBAIsBIOS_contents split_def)
next
  case False
  then show ?thesis
    by (auto simp: GBAIsROM_def GBA_ROM_MAGIC_OFFSET_def GBA_ROM_MAGIC_def vf_seek_def
        vf_read_def Let_def split_def)
qed

lemma GBAIsBIOS_biosFile: "fst (GBAIsBIOS biosFile)"
  by (simp add: GBAIsBIOS_contents biosFile_def interruptTableOk.simps)

text \<open>
  C8. For every file, if \<open>GBAIsBIOS\<close> answers true then \<open>GBAIsROM\<close> answers false. The
  byte at offset 3 of such a file is always the ROM magic byte \<open>0xEA\<close> (it is the top
  byte of the first vector slot), so the magic comparison alone would accept it.
\<close>

theorem bios_is_not_rom:
  "fst (GBAIsBIOS vf) \<Longrightarrow>
     \<not> fst (GBAIsROM vf) \<and> 4 \<le> length (vcontents vf) \<and> vcontents vf ! 3 = 0xEA"
proof -
  assume b: "fst (GBAIsBIOS vf)"
  then have len: "28 \<le> length (vcontents vf)"
    and ok: "interruptTableOk (take 28 (vcontents vf)) 0"
    by (simp_all add: GBAIsBIOS_contents)
  from interruptTableOk_slot0 [OF ok] have "vcontents vf ! 3 = 0xEA" by simp
  with b len show ?thesis by (simp add: GBAIsROM_contents)
qed

theorem bios_is_not_rom_witness:
  "fst (GBAIsBIOS biosFile) \<and> \<not> fst (GBAIsROM biosFile) \<and> vcontents biosFile ! 3 = 0xEA
   \<and> \<not> fst (GBAIsBIOS romFile) \<and> fst (GBAIsROM romFile)"
proof -
  have r: "\<not> fst (GBAIsBIOS romFile)"
    by (simp add: GBAIsBIOS_contents romFile_def)
  then have "fst (GBAIsROM romFile)"
    by (simp add: GBAIsROM_contents) (simp add: romFile_def)
  with r show ?thesis
    using bios_is_not_rom [OF GBAIsBIOS_biosFile] GBAIsBIOS_biosFile by simp
qed

section \<open>Properties of the breakpoint patcher\<close>

lemma load32_bytes:
  "(ucast (load32 m a) :: 8 word) = m a"
  "(ucast (drop_bit 8 (load32 m a)) :: 8 word) = m (a + 1)"
  "(ucast (drop_bit 16 (load32 m a)) :: 8 word) = m (a + 2)"
  "(ucast (drop_bit 24 (load32 m a)) :: 8 word) = m (a + 3)"
  unfolding load32_def
  by (rule bit_eqI; auto simp: bit_simps dest: bit_imp_le_length)+

lemma load16_bytes:
  "(ucast (load16 m a) :: 8 word) = m a"
  "(ucast (drop_bit 8 (load16 m a)) :: 8 word) = m (a + 1)"
  unfolding load16_def
  by (rule bit_eqI; auto simp: bit_simps dest: bit_imp_le_length)+

lemma addr_distinct:
  fixes a :: "32 word"
  shows "a + 1 \<noteq> a" "a + 2 \<noteq> a" "a + 3 \<noteq> a" "a + 2 \<noteq> a + 1" "a + 3 \<noteq> a + 1" "a + 3 \<noteq> a + 2"
    "a \<noteq> a + 1" "a \<noteq> a + 2" "a \<noteq> a + 3" "a + 1 \<noteq> a + 2" "a + 1 \<noteq> a + 3" "a + 2 \<noteq> a + 3"
  by simp_all

lemma store32_twice: "store32 (store32 m a v) a w = store32 m a w"
  by (rule ext) (simp add: store32_def addr_distinct)

lemma store16_twice: "store16 (store16 m a v) a w = store16 m a w"
  by (rule ext) (simp add: store16_def addr_distinct)

lemma store32_load32: "store32 m a (load32 m a) = m"
  by (rule ext) (simp add: store32_def load32_bytes)

lemma store16_load16: "store16 m a (load16 m a) = m"
  by (rule ext) (simp add: store16_def load16_bytes)

lemma bytes_of_word32:
  fixes v :: "32 word"
  shows "ucast (ucast v :: 8 word) OR push_bit 8 (ucast (ucast (drop_bit 8 v) :: 8 word))
           OR push_bit 16 (ucast (ucast (drop_bit 16 v) :: 8 word))
           OR push_bit 24 (ucast (ucast (drop_bit 24 v) :: 8 word)) = v"
proof (rule bit_eqI)
  fix n
  assume "possible_bit TYPE(32 word) n"
  then have n: "n < 32" by (simp add: possible_bit_def)
  consider "n < 8" | "8 \<le> n" "n < 16" | "16 \<le> n" "n < 24" | "24 \<le> n"
    by linarith
  then show "bit (ucast (ucast v :: 8 word) OR push_bit 8 (ucast (ucast (drop_bit 8 v) :: 8 word))
           OR push_bit 16 (ucast (ucast (drop_bit 16 v) :: 8 word))
           OR push_bit 24 (ucast (ucast (drop_bit 24 v) :: 8 word)) :: 32 word) n = bit v n"
    using n by cases (auto simp: bit_simps)
qed

lemma bytes_of_word16:
  fixes v :: "16 word"
  shows "ucast (ucast v :: 8 word) OR push_bit 8 (ucast (ucast (drop_bit 8 v) :: 8 word)) = v"
proof (rule bit_eqI)
  fix n
  assume "possible_bit TYPE(16 word) n"
  then have n: "n < 16" by (simp add: possible_bit_def)
  consider "n < 8" | "8 \<le> n" by linarith
  then show "bit (ucast (ucast v :: 8 word)
      OR push_bit 8 (ucast (ucast (drop_bit 8 v) :: 8 word)) :: 16 word) n = bit v n"
    using n by cases (auto simp: bit_simps)
qed

lemma load32_store32: "load32 (store32 m a v) a = v"
  by (simp add: load32_def store32_def addr_distinct bytes_of_word32)

lemma load16_store16: "load16 (store16 m a v) a = v"
  by (simp add: load16_def store16_def addr_distinct bytes_of_word16)

lemma findComponent_found:
  "\<exists>i. j \<le> i \<and> i < n \<and> comps i = c \<Longrightarrow>
     findComponent comps n c j < n \<and> comps (findComponent comps n c j) = c"
proof (induction comps n c j rule: findComponent.induct)
  case (1 comps n component immediate)
  from "1.prems" obtain i where i: "immediate \<le> i" "i < n" "comps i = component" by blast
  then have lt: "immediate < n" by simp
  show ?case
  proof (cases "comps immediate = component")
    case True
    with lt show ?thesis by (subst (1 2) findComponent.simps) simp
  next
    case False
    with i have "immediate \<noteq> i" by auto
    with i have "\<exists>k. immediate + 1 \<le> k \<and> k < n \<and> comps k = component"
      by (intro exI [of _ i]) simp
    with lt False have "findComponent comps n component (immediate + 1) < n \<and>
        comps (findComponent comps n component (immediate + 1)) = component"
      by (intro "1.IH") simp_all
    with lt False show ?thesis by (subst (1 2) findComponent.simps) simp
  qed
qed

text \<open>
  C9. For every address, either instruction width, and every component that occupies a
  slot of the CPU's component table, \<open>GBASetBreakpoint\<close> leaves the trap opcode of that
  width at the address, and \<open>GBAClearBreakpoint\<close> with the opcode it captured puts
  memory, and with it the whole machine, back as it was before the set.
\<close>

theorem breakpoint_roundtrip:
  "\<exists>i < numComponents (cpu gba). components (cpu gba) i = component \<Longrightarrow>
   GBAClearBreakpoint (snd (GBASetBreakpoint gba component address mode opcode)) address mode
       (fst (GBASetBreakpoint gba component address mode opcode)) = gba
   \<and> busMemory (GBAClearBreakpoint (snd (GBASetBreakpoint gba component address mode opcode))
        address mode (fst (GBASetBreakpoint gba component address mode opcode)))
       = busMemory gba
   \<and> (case mode of
         MODE_ARM \<Rightarrow>
           load32 (busMemory (snd (GBASetBreakpoint gba component address mode opcode))) address
             = armTrapOpcode
                 (findComponent (components (cpu gba)) (numComponents (cpu gba)) component 0)
           \<and> fst (GBASetBreakpoint gba component address mode opcode)
               = load32 (busMemory gba) address
       | MODE_THUMB \<Rightarrow>
           load16 (busMemory (snd (GBASetBreakpoint gba component address mode opcode))) address
             = thumbTrapOpcode
                 (findComponent (components (cpu gba)) (numComponents (cpu gba)) component 0)
           \<and> fst (GBASetBreakpoint gba component address mode opcode)
               = ucast (load16 (busMemory gba) address))"
proof -
  assume "\<exists>i < numComponents (cpu gba). components (cpu gba) i = component"
  then have "\<exists>i. 0 \<le> i \<and> i < numComponents (cpu gba) \<and> components (cpu gba) i = component"
    by auto
  from findComponent_found [OF this]
  have f: "findComponent (components (cpu gba)) (numComponents (cpu gba)) component 0
      \<noteq> numComponents (cpu gba)"
    by simp
  show ?thesis
  proof (cases mode)
    case MODE_ARM
    with f show ?thesis
      by (simp add: GBASetBreakpoint_def GBAClearBreakpoint_def GBAPatch32_def Let_def
          store32_twice store32_load32 load32_store32)
  next
    case MODE_THUMB
    have u: "(ucast (ucast (load16 (busMemory gba) address) :: 32 word) :: 16 word)
        = load16 (busMemory gba) address"
      by (rule bit_eqI) (auto simp: bit_simps)
    from MODE_THUMB f show ?thesis
      by (simp add: GBASetBreakpoint_def GBAClearBreakpoint_def GBAPatch16_def Let_def
          store16_twice store16_load16 load16_store16 u)
  qed
qed

lemma findComponent_bpState:
  "findComponent (components (cpu bpState)) (numComponents (cpu bpState)) 600 0 = 1"
  by (simp add: bpState_def gba0_def cpu0_def findComponent.simps)

theorem breakpoint_roundtrip_witness:
  "fst (GBASetBreakpoint bpState 600 0x08000000 MODE_ARM 0) = 0x03020100
   \<and> load32 (busMemory (snd (GBASetBreakpoint bpState 600 0x08000000 MODE_ARM 0))) 0x08000000
       = 0xE1200071
   \<and> GBAClearBreakpoint (snd (GBASetBreakpoint bpState 600 0x08000000 MODE_ARM 0)) 0x08000000
       MODE_ARM (fst (GBASetBreakpoint bpState 600 0x08000000 MODE_ARM 0)) = bpState
   \<and> fst (GBASetBreakpoint bpState 600 0x08000000 MODE_THUMB 0) = 0x0100
   \<and> load16 (busMemory (snd (GBASetBreakpoint bpState 600 0x08000000 MODE_THUMB 0))) 0x08000000
       = 0xBE01
   \<and> GBAClearBreakpoint (snd (GBASetBreakpoint bpState 600 0x08000000 MODE_THUMB 0)) 0x08000000
       MODE_THUMB (fst (GBASetBreakpoint bpState 600 0x08000000 MODE_THUMB 0)) = bpState"
proof -
  have h: "\<exists>i < numComponents (cpu bpState). components (cpu bpState) i = 600"
    by (intro exI [of _ 1]) (simp add: bpState_def gba0_def cpu0_def)
  have a: "load32 (busMemory bpState) 0x08000000 = 0x03020100"
    by (simp add: load32_def bpState_def)
  have t: "load16 (busMemory bpState) 0x08000000 = 0x0100"
    by (simp add: load16_def bpState_def)
  have o: "armTrapOpcode (Suc 0) = 0xE1200071" "thumbTrapOpcode (Suc 0) = 0xBE01"
    by (simp_all add: armTrapOpcode_def thumbTrapOpcode_def)
  note A = breakpoint_roundtrip [OF h, where address = "0x08000000" and mode = MODE_ARM
      and opcode = 0]
  note T = breakpoint_roundtrip [OF h, where address = "0x08000000" and mode = MODE_THUMB
      and opcode = 0]
  from A have A1: "GBAClearBreakpoint (snd (GBASetBreakpoint bpState 600 0x08000000 MODE_ARM 0))
      0x08000000 MODE_ARM (fst (GBASetBreakpoint bpState 600 0x08000000 MODE_ARM 0)) = bpState"
    by (rule conjunct1)
  from T have T1: "GBAClearBreakpoint (snd (GBASetBreakpoint bpState 600 0x08000000 MODE_THUMB 0))
      0x08000000 MODE_THUMB (fst (GBASetBreakpoint bpState 600 0x08000000 MODE_THUMB 0)) = bpState"
    by (rule conjunct1)
  from A have A2: "load32 (busMemory (snd (GBASetBreakpoint bpState 600 0x08000000 MODE_ARM 0)))
        0x08000000 = 0xE1200071
      \<and> fst (GBASetBreakpoint bpState 600 0x08000000 MODE_ARM 0) = 0x03020100"
    by (simp add: findComponent_bpState a o)
  from T have T2: "load16 (busMemory (snd (GBASetBreakpoint bpState 600 0x08000000 MODE_THUMB 0)))
        0x08000000 = 0xBE01
      \<and> fst (GBASetBreakpoint bpState 600 0x08000000 MODE_THUMB 0) = 0x0100"
    by (simp add: findComponent_bpState t o)
  from A2 T2 A1 T1 show ?thesis by simp
qed

section \<open>Properties of the event scheduler\<close>

lemma tickWhileBlocked_unblocked:
  "\<not> cpuBlocked (mTimingTick X ne gba) \<Longrightarrow>
     tickWhileBlocked X ne gba
       = Some (nextEvent (cpu (mTimingTick X ne gba)), mTimingTick X ne gba)"
  by (subst tickWhileBlocked.simps) simp

lemma GBAProcessEvents_decide_halted:
  "halted (cpu g) \<noteq> 0 \<Longrightarrow> ne \<noteq> 0 \<Longrightarrow>
     GBAProcessEvents_decide ne g
       = (ioreg g REG_IME \<noteq> 0 \<and> ioreg g REG_IE \<noteq> 0, g\<lparr>cpu := (cpu g)\<lparr>cycles := ne\<rparr>\<rparr>)"
  by (simp add: GBAProcessEvents_decide_def Let_def ioreg_def)

lemma GBAProcessEvents_advance_ext0:
  "GBAProcessEvents_advance ext0 (haltedState ie iflags ime)
     = Some (10, (haltedState ie iflags ime)\<lparr>cpu := cpu0\<lparr>halted := 1, nextEvent := 10\<rparr>\<rparr>)"
proof -
  have "tickWhileBlocked ext0 0
          ((haltedState ie iflags ime)\<lparr>cpu := cpu0\<lparr>halted := 1, nextEvent := INT_MAX\<rparr>\<rparr>)
        = Some (10, (haltedState ie iflags ime)\<lparr>cpu := cpu0\<lparr>halted := 1, nextEvent := 10\<rparr>\<rparr>)"
    by (subst tickWhileBlocked_unblocked)
       (simp_all add: ext0_simps haltedState_def irqState_def gba0_def cpu0_def)
  then show ?thesis
    by (simp add: GBAProcessEvents_advance_def Let_def ext0_simps INT_MAX_def
        haltedState_def irqState_def cpu0_def)
qed

text \<open>
  C3 fails as stated: on a halted CPU with a next event ten cycles ahead, IME zero and
  IE non-zero, the pass fast-forwards the cycles to the next event and
  \<open>GBAProcessEvents\<close> returns there, although the two registers are not both zero.
\<close>

theorem halted_return_with_IE_set:
  "halted (cpu (haltedState 1 0 0)) \<noteq> 0
   \<and> ioreg (haltedState 1 0 0) REG_IE \<noteq> 0
   \<and> ioreg (haltedState 1 0 0) REG_IME = 0
   \<and> GBAProcessEvents_advance ext0 (haltedState 1 0 0)
       = Some (10, (haltedState 1 0 0)\<lparr>cpu := cpu0\<lparr>halted := 1, nextEvent := 10\<rparr>\<rparr>)
   \<and> GBAProcessEvents_pass ext0 (haltedState 1 0 0)
       = Some (False,
           (haltedState 1 0 0)\<lparr>cpu := cpu0\<lparr>halted := 1, nextEvent := 10, cycles := 10\<rparr>\<rparr>)
   \<and> GBAProcessEvents ext0 (haltedState 1 0 0)
       = Some ((haltedState 1 0 0)\<lparr>cpu := cpu0\<lparr>halted := 1, nextEvent := 10, cycles := 10\<rparr>\<rparr>)"
proof -
  have p: "GBAProcessEvents_pass ext0 (haltedState 1 0 0)
       = Some (False,
           (haltedState 1 0 0)\<lparr>cpu := cpu0\<lparr>halted := 1, nextEvent := 10, cycles := 10\<rparr>\<rparr>)"
    by (simp add: GBAProcessEvents_pass_def GBAProcessEvents_advance_ext0
        GBAProcessEvents_decide_def Let_def)
       (simp add: ioreg_def haltedState_def irqState_def REG_IME_def REG_IE_def)
  have l: "GBAProcessEvents_loop ext0 (haltedState 1 0 0)
       = Some ((haltedState 1 0 0)\<lparr>cpu := cpu0\<lparr>halted := 1, nextEvent := 10, cycles := 10\<rparr>\<rparr>)"
    by (subst GBAProcessEvents_loop.simps) (simp add: p)
  have b: "(haltedState 1 0 0)\<lparr>bus := prefetch cpu0 1\<rparr> = haltedState 1 0 0"
    by (simp add: haltedState_def irqState_def gba0_def cpu0_def)
  have g: "GBAProcessEvents ext0 (haltedState 1 0 0)
       = Some ((haltedState 1 0 0)\<lparr>cpu := cpu0\<lparr>halted := 1, nextEvent := 10, cycles := 10\<rparr>\<rparr>)"
    using l b
    by (simp add: GBAProcessEvents_def Let_def)
       (simp add: haltedState_def irqState_def gba0_def cpu0_def)
  show ?thesis
    by (simp add: p g GBAProcessEvents_advance_ext0 ioreg_haltedState halted_haltedState)
qed

text \<open>
  C3 as amended. Whenever a pass of \<open>GBAProcessEvents\<close> finds the CPU halted with a
  non-zero next event, it fast-forwards the cycles to the next event; the function then
  returns, without going round again, when IME is zero or IE is zero (either one), and
  goes round the loop again when both are non-zero.
\<close>

theorem halted_pass_fast_forwards:
  "GBAProcessEvents_advance X gba = Some (ne, g) \<Longrightarrow> halted (cpu g) \<noteq> 0 \<Longrightarrow> ne \<noteq> 0 \<Longrightarrow>
   GBAProcessEvents_pass X gba
     = Some (ioreg g REG_IME \<noteq> 0 \<and> ioreg g REG_IE \<noteq> 0, g\<lparr>cpu := (cpu g)\<lparr>cycles := ne\<rparr>\<rparr>)
   \<and> GBAProcessEvents_loop X gba
     = (if ioreg g REG_IME = 0 \<or> ioreg g REG_IE = 0
        then Some (g\<lparr>cpu := (cpu g)\<lparr>cycles := ne\<rparr>\<rparr>)
        else GBAProcessEvents_loop X (g\<lparr>cpu := (cpu g)\<lparr>cycles := ne\<rparr>\<rparr>))"
proof -
  assume a: "GBAProcessEvents_advance X gba = Some (ne, g)"
    and h: "halted (cpu g) \<noteq> 0" and n: "ne \<noteq> 0"
  have p: "GBAProcessEvents_pass X gba
     = Some (ioreg g REG_IME \<noteq> 0 \<and> ioreg g REG_IE \<noteq> 0, g\<lparr>cpu := (cpu g)\<lparr>cycles := ne\<rparr>\<rparr>)"
    by (simp add: GBAProcessEvents_pass_def a GBAProcessEvents_decide_halted [OF h n])
  have "GBAProcessEvents_loop X gba
     = (if ioreg g REG_IME = 0 \<or> ioreg g REG_IE = 0
        then Some (g\<lparr>cpu := (cpu g)\<lparr>cycles := ne\<rparr>\<rparr>)
        else GBAProcessEvents_loop X (g\<lparr>cpu := (cpu g)\<lparr>cycles := ne\<rparr>\<rparr>))"
    by (subst GBAProcessEvents_loop.simps) (simp add: p)
  with p show ?thesis by simp
qed

theorem halted_pass_fast_forwards_witness:
  "GBAProcessEvents_pass ext0 (haltedState 1 0 0)
     = Some (False, (haltedState 1 0 0)\<lparr>cpu := cpu0\<lparr>halted := 1, nextEvent := 10, cycles := 10\<rparr>\<rparr>)
   \<and> GBAProcessEvents_loop ext0 (haltedState 1 0 0)
     = Some ((haltedState 1 0 0)\<lparr>cpu := cpu0\<lparr>halted := 1, nextEvent := 10, cycles := 10\<rparr>\<rparr>)
   \<and> GBAProcessEvents_pass ext0 (haltedState 0 0 1)
     = Some (False, (haltedState 0 0 1)\<lparr>cpu := cpu0\<lparr>halted := 1, nextEvent := 10, cycles := 10\<rparr>\<rparr>)
   \<and> GBAProcessEvents_pass ext0 (haltedState 1 0 1)
     = Some (True, (haltedState 1 0 1)\<lparr>cpu := cpu0\<lparr>halted := 1, nextEvent := 10, cycles := 10\<rparr>\<rparr>)"
proof -
  have h: "\<And>ie fl ime. halted (cpu ((haltedState ie fl ime)\<lparr>cpu := cpu0\<lparr>halted := 1, nextEvent := 10\<rparr>\<rparr>)) \<noteq> 0"
    by simp
  have n: "(10::int) \<noteq> 0" by simp
  have r: "\<And>ie fl ime. ioreg ((haltedState ie fl ime)\<lparr>cpu := cpu0\<lparr>halted := 1, nextEvent := 10\<rparr>\<rparr>) REG_IE = ie"
    "\<And>ie fl ime. ioreg ((haltedState ie fl ime)\<lparr>cpu := cpu0\<lparr>halted := 1, nextEvent := 10\<rparr>\<rparr>) REG_IME = ime"
    by (simp_all add: ioreg_def haltedState_def irqState_def REG_IE_def REG_IF_def REG_IME_def)
  show ?thesis
    using halted_pass_fast_forwards [OF GBAProcessEvents_advance_ext0 h n, of 1 0 0]
      halted_pass_fast_forwards [OF GBAProcessEvents_advance_ext0 h n, of 0 0 1]
      halted_pass_fast_forwards [OF GBAProcessEvents_advance_ext0 h n, of 1 0 1]
    by (simp add: r)
qed

end
